theory Spec2Isabelle
  imports Complex_Main "HOL-Library.Log_Nat" "HOL-Library.Word"
begin

section \<open>The content generator component (ContentGenerator.tsx)\<close>

text \<open>
  The strings held in the state cells are modelled as HOL strings whose characters are
  the code points 0..255, one character for one UTF-16 code unit; the computation of the
  download file name, which depends on characters beyond that range, is modelled on
  lists of 16-bit code units. A JavaScript number is a double, modelled as the rational
  it denotes: the readings of \<^verbatim>\<open>Date.now()\<close> are integers (milliseconds), and
  every arithmetic operation rounds its exact result to the nearest double.
\<close>

subsection \<open>Numbers\<close>

text \<open>Rounding to the nearest integer, a tie going to the even neighbour.\<close>

definition round_ties_even :: "rat \<Rightarrow> int" where
  "round_ties_even x =
     (let f = \<lfloor>x\<rfloor>
      in if x - of_int f < 1 / 2 then f
         else if 1 / 2 < x - of_int f then f + 1
         else if even f then f else f + 1)"

text \<open>
  The binary exponent of a positive rational \<open>x\<close>, the integer \<open>k\<close> with
  \<open>2 powi k \<le> x < 2 powi (k + 1)\<close>: the difference of the bit lengths of numerator and
  denominator, or one less.
\<close>

definition ilog2 :: "rat \<Rightarrow> int" where
  "ilog2 x =
     (let (p, q) = quotient_of x; k = bitlen p - bitlen q
      in if 2 powi k \<le> x then k else k - 1)"

text \<open>
  The double nearest to a rational, ties to even (the rounding of every arithmetic
  operation on numbers): the significand is scaled into the range from \<open>2 ^ 52\<close> to
  \<open>2 ^ 53\<close> and rounded to an integer. The exponent is not bounded; the numbers of this
  component are zero or lie between a thousandth and \<open>2 ^ 55\<close> in magnitude, far from
  the overflow and underflow thresholds of a double.
\<close>

definition to_double :: "rat \<Rightarrow> rat" where
  "to_double x =
     (if x = 0 then 0
      else let e = ilog2 \<bar>x\<bar> - 52
           in sgn x * of_int (round_ties_even (\<bar>x\<bar> / 2 powi e)) * 2 powi e)"

subsection \<open>Data\<close>

text \<open>An element of \<^verbatim>\<open>savedContents\<close>; the component reads the four fields below.\<close>

record HistoryItem =
  item_id :: int
  item_topic :: string
  item_content :: string
  item_created_at :: string

text \<open>The seven \<^verbatim>\<open>useState\<close> cells of the component.\<close>

record state =
  topic :: string
  content :: string
  loading :: bool
  error :: string
  generationTime :: rat
  savedContents :: "HistoryItem list"
  showHistory :: bool

text \<open>The value of every cell at the first render.\<close>

definition initial_state :: state where
  "initial_state =
     \<lparr>topic = [], content = [], loading = False, error = [], generationTime = 0,
      savedContents = [], showHistory = False\<rparr>"

text \<open>A value that a promise rejects with, or that \<^verbatim>\<open>throw\<close> raises.\<close>

datatype thrown =
    ErrorObject string
  | OtherThrown

text \<open>
  The parsed JSON body of a response, \<^verbatim>\<open>data\<close> in the source, with the fields
  the component reads. \<^verbatim>\<open>data.message\<close> is optional: the source itself provides
  for its absence.
\<close>

record response_body =
  body_status :: string
  body_content :: string
  body_message :: "string option"
  body_data :: "HistoryItem list"

text \<open>
  A \<^verbatim>\<open>Response\<close>: its HTTP status code and what \<^verbatim>\<open>response.json()\<close>
  settles with (\<open>Inl\<close> when it rejects).
\<close>

record response =
  resp_status :: nat
  resp_json :: "thrown + response_body"

text \<open>\<^verbatim>\<open>response.ok\<close>: the status code is in the range 200 to 299.\<close>

definition ok :: "response \<Rightarrow> bool" where
  "ok r = (200 \<le> resp_status r \<and> resp_status r \<le> 299)"

text \<open>How the promise returned by \<^verbatim>\<open>fetch\<close> settles.\<close>

datatype fetch_outcome =
    Rejected thrown
  | Resolved response

text \<open>The two network calls of the component.\<close>

datatype request =
    PostGenerate string
  | GetContent

text \<open>What a handler does besides updating the state cells, in order.\<close>

datatype effect =
    Fetch request
  | ToastSuccess string
  | ToastError string
  | ToastInfo string
  | ConsoleError string

subsection \<open>Decimal rendering of a status code\<close>

definition digit_char :: "nat \<Rightarrow> char" where
  "digit_char d = char_of (48 + d)"

fun show_nat :: "nat \<Rightarrow> string" where
  "show_nat n = (if n < 10 then [digit_char n] else show_nat (n div 10) @ [digit_char (n mod 10)])"

declare show_nat.simps [simp del]

subsection \<open>fetchSavedContents\<close>

text \<open>The part up to the first \<^verbatim>\<open>await\<close>: the GET is issued.\<close>

definition fetchSavedContents_begin :: "state \<Rightarrow> state \<times> effect list" where
  "fetchSavedContents_begin s = (s, [Fetch GetContent])"

text \<open>The part after the GET has settled, run on the state of that moment.\<close>

definition fetchSavedContents_resume :: "fetch_outcome \<Rightarrow> state \<Rightarrow> state \<times> effect list" where
  "fetchSavedContents_resume out s =
     (case out of
        Rejected e \<Rightarrow> (s, [ConsoleError ''Failed to fetch history:''])
      | Resolved r \<Rightarrow>
          (case resp_json r of
             Inl e \<Rightarrow> (s, [ConsoleError ''Failed to fetch history:''])
           | Inr data \<Rightarrow>
               if body_status data = ''success''
               then (s\<lparr>savedContents := body_data data\<rparr>, [])
               else (s, [])))"

subsection \<open>generateContent\<close>

text \<open>
  The part up to the first \<^verbatim>\<open>await\<close>. \<open>startTime\<close> is the reading of
  \<^verbatim>\<open>Date.now()\<close>; the body of the POST is the \<open>topic\<close> cell as it is.
\<close>

definition generateContent_begin :: "int \<Rightarrow> state \<Rightarrow> state \<times> effect list" where
  "generateContent_begin startTime s =
     (s\<lparr>loading := True, error := []\<rparr>, [Fetch (PostGenerate (topic s))])"

text \<open>
  The rest of the \<^verbatim>\<open>try\<close> block once the POST has settled: \<open>Inl\<close> is a
  throw, \<open>Inr\<close> the normal end. \<open>now\<close> is the second reading of the clock; the
  subtraction and the division each round to a double.
\<close>

definition generateContent_try ::
  "int \<Rightarrow> int \<Rightarrow> fetch_outcome \<Rightarrow> state \<Rightarrow> thrown + state \<times> effect list" where
  "generateContent_try startTime now out s =
     (case out of
        Rejected e \<Rightarrow> Inl e
      | Resolved r \<Rightarrow>
          if \<not> ok r
          then Inl (ErrorObject (''API request failed with status '' @ show_nat (resp_status r)))
          else
            (case resp_json r of
               Inl e \<Rightarrow> Inl e
             | Inr data \<Rightarrow>
                 if body_status data = ''success''
                 then
                   (let s1 = s\<lparr>content := body_content data\<rparr>;
                        s2 = s1\<lparr>generationTime :=
                               to_double (to_double (of_int now - of_int startTime) / 1000)\<rparr>;
                        (s3, fx) = fetchSavedContents_begin s2
                    in Inr (s3, ToastSuccess ''Content generated successfully!'' # fx))
                 else
                   Inl (ErrorObject
                     (case body_message data of
                        None \<Rightarrow> ''Unknown error occurred''
                      | Some m \<Rightarrow> if m \<noteq> [] then m else ''Unknown error occurred''))))"

text \<open>The \<^verbatim>\<open>catch\<close> block.\<close>

definition generateContent_catch :: "thrown \<Rightarrow> state \<Rightarrow> state \<times> effect list" where
  "generateContent_catch err s =
     (let errorMessage =
            (case err of ErrorObject m \<Rightarrow> m | OtherThrown \<Rightarrow> ''Failed to generate content'')
      in (s\<lparr>error := errorMessage\<rparr>, [ToastError errorMessage]))"

text \<open>Everything after the first \<^verbatim>\<open>await\<close>, with the \<^verbatim>\<open>finally\<close> block last.\<close>

definition generateContent_resume ::
  "int \<Rightarrow> int \<Rightarrow> fetch_outcome \<Rightarrow> state \<Rightarrow> state \<times> effect list" where
  "generateContent_resume startTime now out s =
     (let (s', fx) =
            (case generateContent_try startTime now out s of
               Inl err \<Rightarrow> generateContent_catch err s
             | Inr res \<Rightarrow> res)
      in (s'\<lparr>loading := False\<rparr>, fx))"

text \<open>One whole run of the function when nothing else happens while the POST is pending.\<close>

definition generateContent ::
  "int \<Rightarrow> int \<Rightarrow> fetch_outcome \<Rightarrow> state \<Rightarrow> state \<times> effect list" where
  "generateContent startTime now out s =
     (let (s1, fx1) = generateContent_begin startTime s;
          (s2, fx2) = generateContent_resume startTime now out s1
      in (s2, fx1 @ fx2))"

subsection \<open>The two triggers of generateContent\<close>

text \<open>The \<^verbatim>\<open>onKeyPress\<close> handler of the topic input.\<close>

definition onKeyPress :: "string \<Rightarrow> int \<Rightarrow> state \<Rightarrow> state \<times> effect list" where
  "onKeyPress key startTime s =
     (if key = ''Enter'' \<and> \<not> loading s \<and> topic s \<noteq> []
      then generateContent_begin startTime s
      else (s, []))"

text \<open>
  A click on the Generate button: the button is rendered with
  \<^verbatim>\<open>disabled={loading || !topic}\<close>, and a disabled button runs no handler.
\<close>

definition generate_disabled :: "state \<Rightarrow> bool" where
  "generate_disabled s = (loading s \<or> topic s = [])"

definition onClick_generate :: "int \<Rightarrow> state \<Rightarrow> state \<times> effect list" where
  "onClick_generate startTime s =
     (if generate_disabled s then (s, []) else generateContent_begin startTime s)"

subsection \<open>loadFromHistory\<close>

definition loadFromHistory :: "HistoryItem \<Rightarrow> state \<Rightarrow> state \<times> effect list" where
  "loadFromHistory item s =
     (s\<lparr>topic := item_topic item, content := item_content item, showHistory := False\<rparr>,
      [ToastInfo ''Content loaded from history''])"

text \<open>The error box is rendered when the \<open>error\<close> cell is a non-empty string.\<close>

definition error_visible :: "state \<Rightarrow> bool" where
  "error_visible s = (error s \<noteq> [])"

subsection \<open>downloadContent\<close>

text \<open>A JavaScript string as the list of its UTF-16 code units.\<close>

type_synonym code_unit = "16 word"

type_synonym utf16 = "code_unit list"

definition utf16_of :: "string \<Rightarrow> utf16" where
  "utf16_of t = map of_char t"

text \<open>
  The regular expression class \<^verbatim>\<open>\s\<close>: tab, line feed, vertical tab, form feed,
  carriage return, space, no-break space, the ogham space mark, the spaces from en quad
  to hair space, the line and paragraph separators, the narrow no-break space, the
  medium mathematical space, the ideographic space and the zero width no-break space.
\<close>

definition js_space :: "code_unit \<Rightarrow> bool" where
  "js_space c =
     ((9 \<le> c \<and> c \<le> 13) \<or> c = 0x20 \<or> c = 0xA0 \<or> c = 0x1680
      \<or> (0x2000 \<le> c \<and> c \<le> 0x200A) \<or> c = 0x2028 \<or> c = 0x2029 \<or> c = 0x202F
      \<or> c = 0x205F \<or> c = 0x3000 \<or> c = 0xFEFF)"

text \<open>
  \<^verbatim>\<open>replace(/\s+/g, '-')\<close>: scanning from the left, the longest match of one or
  more whitespace code units is replaced by one hyphen (code unit 45); any other code unit is
  kept.
\<close>

function replace_ws :: "utf16 \<Rightarrow> utf16" where
  "replace_ws [] = []"
| "replace_ws (c # cs) =
     (if js_space c then 0x2D # replace_ws (dropWhile js_space cs) else c # replace_ws cs)"
  by pat_completeness auto
termination
  by (relation "measure length") (auto simp: less_Suc_eq_le length_dropWhile_le)

text \<open>
  The value given to \<^verbatim>\<open>a.download\<close> for the topic \<open>t\<close>: the whitespace runs are
  replaced first, the result is put in lower case, and the extension is appended.
  \<^verbatim>\<open>String.prototype.toLowerCase\<close> is the lower-case mapping of the Unicode
  character database, which is no part of the component: it is the parameter \<open>lower\<close>.
\<close>

definition download_filename :: "(utf16 \<Rightarrow> utf16) \<Rightarrow> utf16 \<Rightarrow> utf16" where
  "download_filename lower t = lower (replace_ws t) @ utf16_of ''.md''"

subsection \<open>Lower case on Basic Latin and the Greek sigma\<close>

text \<open>
  \<^verbatim>\<open>String.prototype.toLowerCase\<close> written out for strings made of the code units
  0 to 127 (Basic Latin), the three forms of the Greek sigma (capital 931, final 962,
  small 963) and the whitespace code units. Among these the cased letters are A to Z,
  a to z and the sigmas; the case-ignorable characters are the apostrophe, the full
  stop, the colon, the circumflex, the grave accent and the zero width no-break space
  (65279). A capital letter A to Z moves up by 32. A capital sigma becomes the final
  sigma when it is preceded by a cased letter and then any number of case-ignorable
  characters, and is not followed by any number of case-ignorable characters and then
  a cased letter; otherwise it becomes the small sigma.
\<close>

definition is_cased :: "code_unit \<Rightarrow> bool" where
  "is_cased c =
     ((0x41 \<le> c \<and> c \<le> 0x5A) \<or> (0x61 \<le> c \<and> c \<le> 0x7A)
      \<or> c = 0x3A3 \<or> c = 0x3C2 \<or> c = 0x3C3)"

definition is_case_ignorable :: "code_unit \<Rightarrow> bool" where
  "is_case_ignorable c =
     (c = 0x27 \<or> c = 0x2E \<or> c = 0x3A \<or> c = 0x5E \<or> c = 0x60 \<or> c = 0xFEFF)"

fun cased_after_ignorables :: "utf16 \<Rightarrow> bool" where
  "cased_after_ignorables [] = False"
| "cased_after_ignorables (c # cs) =
     (if is_case_ignorable c then cased_after_ignorables cs else is_cased c)"

definition lower_unit :: "code_unit \<Rightarrow> code_unit" where
  "lower_unit c = (if 0x41 \<le> c \<and> c \<le> 0x5A then c + 0x20 else c)"

text \<open>\<open>seen\<close> holds the code units already passed, the nearest first.\<close>

fun lower_scan :: "utf16 \<Rightarrow> utf16 \<Rightarrow> utf16" where
  "lower_scan seen [] = []"
| "lower_scan seen (c # cs) =
     (if c = 0x3A3
      then (if cased_after_ignorables seen \<and> \<not> cased_after_ignorables cs
            then 0x3C2 else 0x3C3)
      else lower_unit c) # lower_scan (c # seen) cs"

definition toLowerCase :: "utf16 \<Rightarrow> utf16" where
  "toLowerCase t = lower_scan [] t"

subsection \<open>The notions of the specification about strings\<close>

text \<open>
  The maximal runs of a list with respect to a predicate: consecutive elements on which
  the predicate has the same value, each run as long as possible.
\<close>

function runs :: "('a \<Rightarrow> bool) \<Rightarrow> 'a list \<Rightarrow> 'a list list" where
  "runs P [] = []"
| "runs P (x # xs) =
     (x # takeWhile (\<lambda>y. P y = P x) xs) # runs P (dropWhile (\<lambda>y. P y = P x) xs)"
  by pat_completeness auto
termination
  by (relation "measure (\<lambda>(P, xs). length xs)") (auto simp: less_Suc_eq_le length_dropWhile_le)

text \<open>A string with each maximal run of whitespace replaced by a single hyphen.\<close>

definition hyphenate :: "utf16 \<Rightarrow> utf16" where
  "hyphenate t =
     concat (map (\<lambda>r. if list_all js_space r then [0x2D] else r) (runs js_space t))"

text \<open>
  The file name as the specification words it: the topic in lower case, with each
  maximal run of whitespace replaced by a single hyphen, then the extension.
\<close>

definition spec_filename :: "(utf16 \<Rightarrow> utf16) \<Rightarrow> utf16 \<Rightarrow> utf16" where
  "spec_filename lower t = hyphenate (lower t) @ utf16_of ''.md''"

text \<open>
  The whitespace characters among the code points 0..255, for the strings of the state
  cells.
\<close>

definition is_ws :: "char \<Rightarrow> bool" where
  "is_ws c =
     (let n = (of_char c :: nat) in (9 \<le> n \<and> n \<le> 13) \<or> n = 32 \<or> n = 160)"

text \<open>A string that is empty or consists of whitespace only.\<close>

definition whitespace_only :: "string \<Rightarrow> bool" where
  "whitespace_only t = list_all is_ws t"

text \<open>
  \<^verbatim>\<open>String.prototype.trim\<close>, which the specification refers to; the component
  never calls it.
\<close>

definition js_trim :: "string \<Rightarrow> string" where
  "js_trim t = rev (dropWhile is_ws (rev (dropWhile is_ws t)))"

subsection \<open>The component as a transition system\<close>

text \<open>
  The state cells together with the network calls that have been issued and have not
  settled yet: for each pending POST the start time of its run of
  \<^verbatim>\<open>generateContent\<close> and the topic it carries, and the number of pending GETs.
\<close>

record system =
  ui :: state
  pending_generate :: "(int \<times> string) list"
  pending_refresh :: nat

fun post_bodies :: "effect list \<Rightarrow> string list" where
  "post_bodies [] = []"
| "post_bodies (Fetch (PostGenerate b) # fx) = b # post_bodies fx"
| "post_bodies (e # fx) = post_bodies fx"

fun get_count :: "effect list \<Rightarrow> nat" where
  "get_count [] = 0"
| "get_count (Fetch GetContent # fx) = Suc (get_count fx)"
| "get_count (e # fx) = get_count fx"

text \<open>A handler has run: its state is installed and its network calls become pending.\<close>

definition perform :: "int \<Rightarrow> state \<times> effect list \<Rightarrow> system \<Rightarrow> system" where
  "perform startTime res sys =
     sys\<lparr>ui := fst res,
         pending_generate :=
           pending_generate sys @ map (\<lambda>b. (startTime, b)) (post_bodies (snd res)),
         pending_refresh := pending_refresh sys + get_count (snd res)\<rparr>"

text \<open>
  What can happen: a key press in the topic input, a click on the Generate button, an
  edit of the topic, a click on the history header, a click on one of the rendered
  history entries (the first five), and the settling of a pending POST or GET. Key
  presses, clicks on Generate and the settling of a POST carry the reading of the clock.
\<close>

datatype event =
    KeyPress string int
  | ClickGenerate int
  | ChangeTopic string
  | ToggleHistory
  | ClickHistoryItem nat
  | GenerateSettled nat int fetch_outcome
  | RefreshSettled fetch_outcome

fun step :: "event \<Rightarrow> system \<Rightarrow> system" where
  "step (KeyPress key t) sys = perform t (onKeyPress key t (ui sys)) sys"
| "step (ClickGenerate t) sys = perform t (onClick_generate t (ui sys)) sys"
| "step (ChangeTopic v) sys = sys\<lparr>ui := (ui sys)\<lparr>topic := v\<rparr>\<rparr>"
| "step ToggleHistory sys = sys\<lparr>ui := (ui sys)\<lparr>showHistory := \<not> showHistory (ui sys)\<rparr>\<rparr>"
| "step (ClickHistoryItem i) sys =
     (let shown = take 5 (savedContents (ui sys))
      in if showHistory (ui sys) \<and> i < length shown
         then perform 0 (loadFromHistory (shown ! i) (ui sys)) sys
         else sys)"
| "step (GenerateSettled i now out) sys =
     (let pg = pending_generate sys
      in if i < length pg
         then perform 0 (generateContent_resume (fst (pg ! i)) now out (ui sys))
                (sys\<lparr>pending_generate := take i pg @ drop (Suc i) pg\<rparr>)
         else sys)"
| "step (RefreshSettled out) sys =
     (if 0 < pending_refresh sys
      then perform 0 (fetchSavedContents_resume out (ui sys))
             (sys\<lparr>pending_refresh := pending_refresh sys - 1\<rparr>)
      else sys)"

text \<open>The component after mounting: the effect hook has called \<^verbatim>\<open>fetchSavedContents\<close>.\<close>

definition mounted :: system where
  "mounted =
     perform 0 (fetchSavedContents_begin initial_state)
       \<lparr>ui = initial_state, pending_generate = [], pending_refresh = 0\<rparr>"

definition run :: "event list \<Rightarrow> system \<Rightarrow> system" where
  "run evs sys = fold step evs sys"

text \<open>Exactly the runs of \<^verbatim>\<open>generateContent\<close> that await their POST hold the loading flag.\<close>

definition single_flight :: "system \<Rightarrow> bool" where
  "single_flight sys = (length (pending_generate sys) = (if loading (ui sys) then 1 else 0))"


text \<open>A pending POST whose body carries a non-empty topic.\<close>

definition carries_topic :: "int \<times> string \<Rightarrow> bool" where
  "carries_topic p = (snd p \<noteq> [])"

subsection \<open>Rounding to a double\<close>

lemma bitlen_powi_bounds:
  assumes "0 < p"
  shows "(2::rat) powi (bitlen p - 1) \<le> of_int p" and "of_int p < (2::rat) powi bitlen p"
proof -
  from bitlen_bounds [OF assms]
  have a: "2 ^ nat (bitlen p - 1) \<le> p" and b: "p < 2 ^ nat (bitlen p)" by auto
  have one: "1 \<le> bitlen p" using assms by (auto simp: bitlen_alt_def)
  from a have "(of_int (2 ^ nat (bitlen p - 1)) :: rat) \<le> of_int p"
    by (simp only: of_int_le_iff)
  with one show "(2::rat) powi (bitlen p - 1) \<le> of_int p"
    by (simp add: power_int_def)
  from b have "(of_int p :: rat) < of_int (2 ^ nat (bitlen p))"
    by (simp only: of_int_less_iff)
  with one show "of_int p < (2::rat) powi bitlen p"
    by (simp add: power_int_def)
qed

lemma ilog2_bounds:
  assumes "0 < x"
  shows "2 powi ilog2 x \<le> x \<and> x < 2 powi (ilog2 x + 1)"
proof -
  obtain p q where pq: "quotient_of x = (p, q)" by (cases "quotient_of x")
  then have q: "0 < q" and x: "x = of_int p / of_int q"
    by (rule quotient_of_denom_pos, rule quotient_of_div)
  from assms x q have p: "0 < p"
    by (simp add: zero_less_divide_iff)
  let ?k = "bitlen p - bitlen q"
  have lo: "(2::rat) powi (?k - 1) \<le> x"
  proof -
    have "(2::rat) powi (?k - 1) = 2 powi (bitlen p - 1) / 2 powi bitlen q"
      by (simp add: power_int_diff)
    also have "\<dots> \<le> of_int p / 2 powi bitlen q"
      using bitlen_powi_bounds(1) [OF p] by (simp add: divide_right_mono)
    also have "\<dots> \<le> of_int p / of_int q"
      using bitlen_powi_bounds(2) [OF q] p q by (simp add: frac_le)
    finally show ?thesis by (simp add: x)
  qed
  have hi: "x < (2::rat) powi (?k + 1)"
  proof -
    have "x = of_int p / of_int q" by (rule x)
    also have "\<dots> < 2 powi bitlen p / of_int q"
      using bitlen_powi_bounds(2) [OF p] q by (simp add: divide_strict_right_mono)
    also have "\<dots> \<le> 2 powi bitlen p / 2 powi (bitlen q - 1)"
      using bitlen_powi_bounds(1) [OF q] by (simp add: frac_le)
    also have "\<dots> = (2::rat) powi (?k + 1)"
      by (simp add: power_int_diff power_int_add)
    finally show ?thesis .
  qed
  show ?thesis
  proof (cases "2 powi ?k \<le> x")
    case True
    with hi pq show ?thesis by (simp add: ilog2_def)
  next
    case False
    with lo pq show ?thesis by (simp add: ilog2_def)
  qed
qed

text \<open>The scaled significand lies in the range of 53-bit integers.\<close>

lemma significand_range:
  assumes "x \<noteq> 0"
  shows "2 ^ 52 \<le> \<bar>x\<bar> / 2 powi (ilog2 \<bar>x\<bar> - 52) \<and> \<bar>x\<bar> / 2 powi (ilog2 \<bar>x\<bar> - 52) < 2 ^ 53"
proof -
  let ?l = "ilog2 \<bar>x\<bar>"
  from assms have "0 < \<bar>x\<bar>" by simp
  from ilog2_bounds [OF this]
  have lo: "2 powi ?l \<le> \<bar>x\<bar>" and hi: "\<bar>x\<bar> < 2 powi (?l + 1)" by simp_all
  have p: "(0::rat) < 2 powi ?l" by simp
  have eq: "\<bar>x\<bar> / 2 powi (?l - 52) = \<bar>x\<bar> / 2 powi ?l * 2 ^ 52"
    by (simp add: power_int_diff)
  define y where "y = \<bar>x\<bar> / 2 powi ?l"
  from lo p have "1 \<le> y" by (simp add: y_def le_divide_eq)
  moreover from hi p have "y < 2"
    by (simp add: y_def divide_less_eq power_int_add mult.commute)
  ultimately have "2 ^ 52 \<le> y * 2 ^ 52 \<and> y * 2 ^ 52 < 2 ^ 53" by simp
  then show ?thesis unfolding eq y_def .
qed

lemma round_ties_even_of_int: "round_ties_even (of_int m) = m"
  by (simp add: round_ties_even_def)

lemma round_ties_even_nonneg: "0 \<le> x \<Longrightarrow> 0 \<le> round_ties_even x"
  by (auto simp: round_ties_even_def Let_def)

lemma to_double_nonneg: "0 \<le> x \<Longrightarrow> 0 \<le> to_double x"
  by (simp add: to_double_def Let_def round_ties_even_nonneg)

lemma to_double_exact:
  assumes "x \<noteq> 0" and "\<bar>x\<bar> / 2 powi (ilog2 \<bar>x\<bar> - 52) = of_int m"
  shows "to_double x = x"
proof -
  let ?e = "ilog2 \<bar>x\<bar> - 52"
  have "to_double x = sgn x * (\<bar>x\<bar> / 2 powi ?e) * 2 powi ?e"
    using assms by (simp add: to_double_def Let_def round_ties_even_of_int)
  also have "\<dots> = sgn x * \<bar>x\<bar>" by simp
  also have "\<dots> = x" by (simp add: mult.commute abs_mult_sgn)
  finally show ?thesis .
qed

lemma to_double_of_int:
  assumes "\<bar>n\<bar> \<le> 2 ^ 53"
  shows "to_double (of_int n) = of_int n"
proof (cases "n = 0")
  case True
  then show ?thesis by (simp add: to_double_def)
next
  case False
  let ?a = "\<bar>of_int n\<bar> :: rat"
  let ?e = "ilog2 ?a - 52"
  from False have pos: "0 < ?a" by simp
  have a: "?a = of_int \<bar>n\<bar>" by simp
  from assms have le: "?a \<le> 2 powi 53"
    unfolding a by (simp add: power_int_def del: of_int_abs)
  from ilog2_bounds [OF pos] have lo: "2 powi ilog2 ?a \<le> ?a" by simp
  have e: "?e \<le> 1"
  proof (rule ccontr)
    assume "\<not> ?e \<le> 1"
    then have "53 < ilog2 ?a" by simp
    then have "(2::rat) powi 53 < 2 powi ilog2 ?a"
      by (rule power_int_strict_increasing) simp
    with lo le show False by simp
  qed
  show ?thesis
  proof (cases "?e \<le> 0")
    case True
    then have "(2::rat) powi ?e = 1 / 2 ^ nat (- ?e)"
      by (simp add: power_int_def inverse_eq_divide power_one_over)
    then have eq: "?a / 2 powi ?e = of_int (\<bar>n\<bar> * 2 ^ nat (- ?e))"
      by simp
    from \<open>n \<noteq> 0\<close> have "(of_int n :: rat) \<noteq> 0" by simp
    then show ?thesis by (rule to_double_exact [OF _ eq])
  next
    case False
    with e have e1: "?e = 1" by simp
    then have "ilog2 ?a = 53" by simp
    with lo le have "?a = 2 powi 53" by simp
    with e1 have eq: "?a / 2 powi ?e = of_int (2 ^ 52)"
      by (simp add: power_int_def)
    from \<open>n \<noteq> 0\<close> have "(of_int n :: rat) \<noteq> 0" by simp
    then show ?thesis by (rule to_double_exact [OF _ eq])
  qed
qed

lemma elapsed_example_forward:
  "to_double (to_double (of_int 2500 - of_int 1000) / 1000) = 3 / 2"
  by code_simp

lemma elapsed_example_backward:
  "to_double (to_double (of_int 1500 - of_int 2000) / 1000) = - 1 / 2"
  by code_simp

subsection \<open>Runs of generateContent\<close>

lemmas generate_defs =
  generateContent_def generateContent_begin_def generateContent_resume_def
  generateContent_try_def generateContent_catch_def fetchSavedContents_begin_def Let_def

lemma show_nat_500: "show_nat 500 = ''500''"
  by code_simp

subsection \<open>The triggers and the transition system\<close>

lemmas trigger_defs = onKeyPress_def onClick_generate_def generate_disabled_def generateContent_begin_def

lemma perform_single_flight_quiet:
  "post_bodies (snd res) = [] \<Longrightarrow> loading (fst res) = loading (ui sys) \<Longrightarrow>
   single_flight sys \<Longrightarrow> single_flight (perform t res sys)"
  by (simp add: single_flight_def perform_def)

lemma step_single_flight:
  assumes "single_flight sys"
  shows "single_flight (step ev sys)"
proof (cases ev)
  case (KeyPress key t)
  with assms show ?thesis
    by (simp add: single_flight_def perform_def trigger_defs)
next
  case (ClickGenerate t)
  with assms show ?thesis
    by (simp add: single_flight_def perform_def trigger_defs)
next
  case (ChangeTopic v)
  with assms show ?thesis by (simp add: single_flight_def)
next
  case ToggleHistory
  with assms show ?thesis by (simp add: single_flight_def)
next
  case (ClickHistoryItem i)
  with assms show ?thesis
    by (auto simp: single_flight_def perform_def loadFromHistory_def Let_def split: if_splits)
next
  case (GenerateSettled i now out)
  show ?thesis
  proof (cases "i < length (pending_generate sys)")
    case True
    with assms have l: "loading (ui sys)" and i: "i = 0" and n: "length (pending_generate sys) = 1"
      by (auto simp: single_flight_def split: if_splits)
    have q: "post_bodies (snd (generateContent_resume st now out s)) = []" for st s
      by (cases out)
        (auto simp: generateContent_resume_def generateContent_try_def generateContent_catch_def
          fetchSavedContents_begin_def Let_def split: sum.splits)
    have f: "loading (fst (generateContent_resume st now out s)) = False" for st s
      by (simp add: generateContent_resume_def split: prod.splits)
    from n have d: "drop (Suc 0) (pending_generate sys) = []" by simp
    from n have ne: "pending_generate sys \<noteq> []" by auto
    from GenerateSettled i n d ne show ?thesis
      by (simp add: single_flight_def perform_def Let_def q f)
  next
    case False
    with GenerateSettled assms show ?thesis by (simp add: Let_def)
  qed
next
  case (RefreshSettled out)
  have q: "post_bodies (snd (fetchSavedContents_resume out s)) = []
      \<and> loading (fst (fetchSavedContents_resume out s)) = loading s" for s
    by (cases out) (auto simp: fetchSavedContents_resume_def split: sum.splits)
  from RefreshSettled assms show ?thesis
    by (auto simp: single_flight_def perform_def q split: if_splits)
qed

lemma run_single_flight:
  "single_flight sys \<Longrightarrow> single_flight (run evs sys)"
  unfolding run_def by (induction evs arbitrary: sys) (simp_all add: step_single_flight)

lemma mounted_single_flight: "single_flight mounted"
  by (simp add: single_flight_def mounted_def perform_def fetchSavedContents_begin_def initial_state_def)

lemma run_example:
  "run [ChangeTopic ''x'', ClickGenerate 0, ClickGenerate 1, KeyPress ''Enter'' 2] mounted =
     \<lparr>ui = initial_state\<lparr>topic := ''x'', loading := True\<rparr>,
      pending_generate = [(0, ''x'')], pending_refresh = 1\<rparr>"
  by (simp add: run_def mounted_def perform_def fetchSavedContents_begin_def initial_state_def
      trigger_defs)

lemma step_carries_topic:
  assumes "list_all carries_topic (pending_generate sys)"
  shows "list_all carries_topic (pending_generate (step ev sys))"
proof (cases ev)
  case (KeyPress key t)
  with assms show ?thesis
    by (simp add: perform_def trigger_defs carries_topic_def)
next
  case (ClickGenerate t)
  with assms show ?thesis
    by (simp add: perform_def trigger_defs carries_topic_def)
next
  case (ChangeTopic v)
  with assms show ?thesis by simp
next
  case ToggleHistory
  with assms show ?thesis by simp
next
  case (ClickHistoryItem i)
  with assms show ?thesis
    by (simp add: perform_def loadFromHistory_def Let_def)
next
  case (GenerateSettled i now out)
  have q: "post_bodies (snd (generateContent_resume st now out s)) = []" for st s
    by (cases out)
      (auto simp: generateContent_resume_def generateContent_try_def generateContent_catch_def
        fetchSavedContents_begin_def Let_def split: sum.splits)
  from assms have "list_all carries_topic (take i (pending_generate sys))"
    and "list_all carries_topic (drop (Suc i) (pending_generate sys))"
    by (auto simp: list_all_iff dest: in_set_takeD in_set_dropD)
  with GenerateSettled assms show ?thesis
    by (simp add: perform_def Let_def q)
next
  case (RefreshSettled out)
  have q: "post_bodies (snd (fetchSavedContents_resume out s)) = []" for s
    by (cases out) (auto simp: fetchSavedContents_resume_def split: sum.splits)
  from RefreshSettled assms show ?thesis
    by (simp add: perform_def q)
qed

lemma run_carries_topic:
  "list_all carries_topic (pending_generate sys) \<Longrightarrow>
   list_all carries_topic (pending_generate (run evs sys))"
  unfolding run_def by (induction evs arbitrary: sys) (simp_all add: step_carries_topic)

text \<open>
  While the history panel closes, its entries stay on the screen for the time of the
  exit animation and can still be clicked; \<open>step\<close> takes clicks on the entries of
  the open panel only. A click on any item in any state keeps both invariants.
\<close>

lemma loadFromHistory_keeps_invariants:
  "single_flight sys \<Longrightarrow> single_flight (perform 0 (loadFromHistory item (ui sys)) sys)"
  "list_all carries_topic (pending_generate sys) \<Longrightarrow>
     list_all carries_topic (pending_generate (perform 0 (loadFromHistory item (ui sys)) sys))"
  by (simp_all add: single_flight_def perform_def loadFromHistory_def)

subsection \<open>The history refresh\<close>

lemma refresh_failure_keeps_state:
  "fetchSavedContents_resume (Rejected e) s = (s, [ConsoleError ''Failed to fetch history:''])"
  "resp_json r = Inl e \<Longrightarrow>
     fetchSavedContents_resume (Resolved r) s = (s, [ConsoleError ''Failed to fetch history:''])"
  "resp_json r = Inr data \<Longrightarrow> body_status data \<noteq> ''success'' \<Longrightarrow>
     fetchSavedContents_resume (Resolved r) s = (s, [])"
  by (simp_all add: fetchSavedContents_resume_def)

subsection \<open>The file name\<close>

lemma replace_ws_plain_prefix:
  "list_all (\<lambda>c. \<not> js_space c) ys \<Longrightarrow> replace_ws (ys @ zs) = ys @ replace_ws zs"
  by (induction ys) simp_all

lemma list_all_takeWhile: "list_all P (takeWhile P xs)"
  by (induction xs) simp_all

lemma replace_ws_hyphenate: "replace_ws t = hyphenate t"
proof (induction t rule: length_induct)
  case (1 t)
  let ?h = "\<lambda>r. if list_all js_space r then [0x2D] else r"
  show ?case
  proof (cases t)
    case Nil
    then show ?thesis by (simp add: hyphenate_def)
  next
    case (Cons c cs)
    have ih: "replace_ws (dropWhile Q cs) = concat (map ?h (runs js_space (dropWhile Q cs)))" for Q
      using 1 Cons by (simp add: less_Suc_eq_le length_dropWhile_le hyphenate_def)
    show ?thesis
    proof (cases "js_space c")
      case True
      then have eq: "(\<lambda>y. js_space y = js_space c) = js_space" by auto
      from Cons True show ?thesis
        by (simp add: eq ih list_all_takeWhile hyphenate_def)
    next
      case False
      then have eq: "(\<lambda>y. js_space y = js_space c) = (\<lambda>y. \<not> js_space y)" by auto
      have "replace_ws cs =
          replace_ws (takeWhile (\<lambda>y. \<not> js_space y) cs @ dropWhile (\<lambda>y. \<not> js_space y) cs)"
        by simp
      also have "\<dots> =
          takeWhile (\<lambda>y. \<not> js_space y) cs @ replace_ws (dropWhile (\<lambda>y. \<not> js_space y) cs)"
        by (rule replace_ws_plain_prefix) (rule list_all_takeWhile)
      finally have "replace_ws cs =
          takeWhile (\<lambda>y. \<not> js_space y) cs
            @ concat (map ?h (runs js_space (dropWhile (\<lambda>y. \<not> js_space y) cs)))"
        by (simp add: ih)
      with Cons False show ?thesis
        by (simp add: eq hyphenate_def)
    qed
  qed
qed

text \<open>
  Where lower case is taken code unit by code unit and turns neither whitespace into
  something else nor anything into whitespace or a hyphen into something else, the
  order of the two steps does not matter.
\<close>

lemma map_replace_ws:
  assumes "\<And>c. js_space (f c) = js_space c" and "f 0x2D = 0x2D"
  shows "map f (replace_ws t) = replace_ws (map f t)"
proof -
  from assms(1) have "js_space \<circ> f = js_space" by (auto simp: fun_eq_iff)
  with assms show ?thesis
    by (induction t rule: replace_ws.induct) (simp_all add: dropWhile_map)
qed

lemma spec_filename_unitwise:
  assumes "\<And>c. js_space (f c) = js_space c" and "f 0x2D = 0x2D"
  shows "download_filename (map f) t = spec_filename (map f) t"
  by (simp add: download_filename_def spec_filename_def map_replace_ws [OF assms]
      flip: replace_ws_hyphenate)

lemma how_ai_helps:
  "download_filename toLowerCase (utf16_of ''How AI Helps'') = utf16_of ''how-ai-helps.md''"
  by code_simp

lemma sigma_download:
  "download_filename toLowerCase [0x41, 0x3A3, 0xFEFF, 0x42] =
     [0x61, 0x3C2, 0x2D, 0x62, 0x2E, 0x6D, 0x64]"
  by code_simp

lemma sigma_spec:
  "spec_filename toLowerCase [0x41, 0x3A3, 0xFEFF, 0x42] =
     [0x61, 0x3C3, 0x2D, 0x62, 0x2E, 0x6D, 0x64]"
  by code_simp

section \<open>Properties\<close>

text \<open>
  C10. Selecting a history item sets the topic and the content to those of the item and
  closes the history panel; the error text, the elapsed generation time, the cached
  history list and the loading flag stay as they were, so an error message that was
  displayed before is still displayed afterwards. No network call is made.
\<close>

theorem loadFromHistory_frame:
  "topic (fst (loadFromHistory item s)) = item_topic item
   \<and> content (fst (loadFromHistory item s)) = item_content item
   \<and> showHistory (fst (loadFromHistory item s)) = False
   \<and> error (fst (loadFromHistory item s)) = error s
   \<and> generationTime (fst (loadFromHistory item s)) = generationTime s
   \<and> savedContents (fst (loadFromHistory item s)) = savedContents s
   \<and> loading (fst (loadFromHistory item s)) = loading s
   \<and> error_visible (fst (loadFromHistory item s)) = error_visible s
   \<and> snd (loadFromHistory item s) = [ToastInfo ''Content loaded from history'']"
  by (simp add: loadFromHistory_def error_visible_def)

text \<open>
  C9. Whatever the POST settles with (a success, a response that is not 2xx, a body
  whose status is not "success", a rejected fetch or a body that does not parse), the
  code after the await ends with the loading flag false, on any state it resumes in;
  so does a whole run of generateContent.
\<close>

theorem generateContent_exits_loading:
  "loading (fst (generateContent_resume st now out s)) = False
   \<and> loading (fst (generateContent st now out s)) = False"
  by (simp add: generateContent_def generateContent_resume_def split: prod.splits)

text \<open>
  C3, as stated, fails when the clock is set back while the POST is pending:
  \<^verbatim>\<open>Date.now()\<close> reads the wall clock, and with the readings 2000 at the start
  and 1500 at the end of a successful run the elapsed time stored is -0.5.
\<close>

theorem clock_set_back_counterexample:
  "ok \<lparr>resp_status = 200, resp_json = Inr \<lparr>body_status = ''success'', body_content = ''# Hi'', body_message = None, body_data = []\<rparr>\<rparr>
   \<and> generationTime (fst (generateContent 2000 1500
        (Resolved \<lparr>resp_status = 200, resp_json = Inr \<lparr>body_status = ''success'', body_content = ''# Hi'', body_message = None, body_data = []\<rparr>\<rparr>)
        (initial_state\<lparr>topic := ''hi''\<rparr>))) = - 1 / 2
   \<and> generationTime (fst (generateContent 2000 1500
        (Resolved \<lparr>resp_status = 200, resp_json = Inr \<lparr>body_status = ''success'', body_content = ''# Hi'', body_message = None, body_data = []\<rparr>\<rparr>)
        (initial_state\<lparr>topic := ''hi''\<rparr>))) < 0"
proof -
  let ?d = "\<lparr>body_status = ''success'', body_content = ''# Hi'', body_message = None, body_data = []\<rparr>"
  let ?r = "\<lparr>resp_status = 200, resp_json = Inr ?d\<rparr>"
  have h: "ok ?r" by (simp add: ok_def)
  from h have "generationTime (fst (generateContent 2000 1500 (Resolved ?r)
        (initial_state\<lparr>topic := ''hi''\<rparr>))) =
      to_double (to_double (of_int 1500 - of_int 2000) / 1000)"
    by (simp add: generate_defs del: of_int_numeral)
  then have "generationTime (fst (generateContent 2000 1500 (Resolved ?r)
        (initial_state\<lparr>topic := ''hi''\<rparr>))) = - 1 / 2"
    by (simp only: elapsed_example_backward)
  with h show ?thesis by simp
qed

text \<open>
  C3, amended. When the POST settles with a 2xx response whose body has status "success"
  and content \<open>c\<close>, a run of generateContent ends with the content cell equal to \<open>c\<close>
  and the elapsed time equal to the number (now - start) / 1000, that is the double
  nearest to that quotient when the two readings are at most \<open>2 ^ 53\<close> apart; the
  elapsed time is not negative when the second reading of the clock is not before the
  first. The error text is empty, and a GET for the history is issued after the success
  toast. The code after the await does the same on any state it resumes in, leaving the
  error text as it finds it.
\<close>

theorem generateContent_success:
  assumes "ok r" and "resp_json r = Inr data" and "body_status data = ''success''"
    and "body_content data = c"
  shows "content (fst (generateContent st now (Resolved r) s)) = c
   \<and> generationTime (fst (generateContent st now (Resolved r) s)) =
       to_double (to_double (of_int now - of_int st) / 1000)
   \<and> (\<bar>now - st\<bar> \<le> 2 ^ 53 \<longrightarrow>
        generationTime (fst (generateContent st now (Resolved r) s)) =
          to_double (of_int (now - st) / 1000))
   \<and> (st \<le> now \<longrightarrow> 0 \<le> generationTime (fst (generateContent st now (Resolved r) s)))
   \<and> error (fst (generateContent st now (Resolved r) s)) = []
   \<and> snd (generateContent st now (Resolved r) s) =
       [Fetch (PostGenerate (topic s)), ToastSuccess ''Content generated successfully!'',
        Fetch GetContent]
   \<and> content (fst (generateContent_resume st now (Resolved r) s')) = c
   \<and> generationTime (fst (generateContent_resume st now (Resolved r) s')) =
       to_double (to_double (of_int now - of_int st) / 1000)
   \<and> error (fst (generateContent_resume st now (Resolved r) s')) = error s'
   \<and> snd (generateContent_resume st now (Resolved r) s') =
       [ToastSuccess ''Content generated successfully!'', Fetch GetContent]"
proof -
  have exact: "\<bar>now - st\<bar> \<le> 2 ^ 53 \<Longrightarrow>
      to_double (to_double (of_int now - of_int st) / 1000) = to_double (of_int (now - st) / 1000)"
    using to_double_of_int [of "now - st"] by simp
  have nonneg: "st \<le> now \<Longrightarrow> 0 \<le> to_double (to_double (of_int now - of_int st) / 1000)"
    by (intro to_double_nonneg divide_nonneg_nonneg) simp_all
  from assms exact nonneg show ?thesis
    by (simp add: generate_defs)
qed

theorem generateContent_success_witness:
  "ok \<lparr>resp_status = 200, resp_json = Inr \<lparr>body_status = ''success'', body_content = ''# Hi'', body_message = None, body_data = []\<rparr>\<rparr>
   \<and> \<bar>2500 - 1000\<bar> \<le> (2 ^ 53 :: int)
   \<and> (1000 :: int) \<le> 2500
   \<and> content (fst (generateContent 1000 2500
        (Resolved \<lparr>resp_status = 200, resp_json = Inr \<lparr>body_status = ''success'', body_content = ''# Hi'', body_message = None, body_data = []\<rparr>\<rparr>)
        (initial_state\<lparr>topic := ''hi''\<rparr>))) = ''# Hi''
   \<and> generationTime (fst (generateContent 1000 2500
        (Resolved \<lparr>resp_status = 200, resp_json = Inr \<lparr>body_status = ''success'', body_content = ''# Hi'', body_message = None, body_data = []\<rparr>\<rparr>)
        (initial_state\<lparr>topic := ''hi''\<rparr>))) = 3 / 2
   \<and> 0 \<le> generationTime (fst (generateContent 1000 2500
        (Resolved \<lparr>resp_status = 200, resp_json = Inr \<lparr>body_status = ''success'', body_content = ''# Hi'', body_message = None, body_data = []\<rparr>\<rparr>)
        (initial_state\<lparr>topic := ''hi''\<rparr>)))
   \<and> error (fst (generateContent 1000 2500
        (Resolved \<lparr>resp_status = 200, resp_json = Inr \<lparr>body_status = ''success'', body_content = ''# Hi'', body_message = None, body_data = []\<rparr>\<rparr>)
        (initial_state\<lparr>topic := ''hi''\<rparr>))) = []"
proof -
  let ?d = "\<lparr>body_status = ''success'', body_content = ''# Hi'', body_message = None, body_data = []\<rparr>"
  let ?r = "\<lparr>resp_status = 200, resp_json = Inr ?d\<rparr>"
  let ?s = "initial_state\<lparr>topic := ''hi''\<rparr>"
  have h: "ok ?r" by (simp add: ok_def)
  have t: "content (fst (generateContent 1000 2500 (Resolved ?r) ?s)) = ''# Hi''
      \<and> generationTime (fst (generateContent 1000 2500 (Resolved ?r) ?s)) =
          to_double (to_double (of_int 2500 - of_int 1000) / 1000)
      \<and> error (fst (generateContent 1000 2500 (Resolved ?r) ?s)) = []"
    using generateContent_success [of ?r ?d "''# Hi''" 1000 2500 ?s ?s, OF h] by simp
  then have g: "generationTime (fst (generateContent 1000 2500 (Resolved ?r) ?s)) = 3 / 2"
    by (simp only: elapsed_example_forward)
  from h t g show ?thesis by simp
qed

text \<open>
  C4. When the POST settles with a response that is not 2xx, the error text becomes
  "API request failed with status " followed by the status code in decimal, and the
  content cell keeps the value it had.
\<close>

theorem generateContent_http_error:
  assumes "\<not> ok r"
  shows "error (fst (generateContent st now (Resolved r) s)) =
           ''API request failed with status '' @ show_nat (resp_status r)
   \<and> content (fst (generateContent st now (Resolved r) s)) = content s
   \<and> error (fst (generateContent_resume st now (Resolved r) s')) =
           ''API request failed with status '' @ show_nat (resp_status r)
   \<and> content (fst (generateContent_resume st now (Resolved r) s')) = content s'"
  using assms by (simp add: generate_defs)

theorem generateContent_http_error_witness:
  "\<not> ok \<lparr>resp_status = 500, resp_json = Inl (ErrorObject ''Unexpected token'')\<rparr>
   \<and> error (fst (generateContent 0 7
        (Resolved \<lparr>resp_status = 500, resp_json = Inl (ErrorObject ''Unexpected token'')\<rparr>)
        (initial_state\<lparr>topic := ''hi'', content := ''old''\<rparr>))) =
        ''API request failed with status 500''
   \<and> content (fst (generateContent 0 7
        (Resolved \<lparr>resp_status = 500, resp_json = Inl (ErrorObject ''Unexpected token'')\<rparr>)
        (initial_state\<lparr>topic := ''hi'', content := ''old''\<rparr>))) = ''old''"
proof -
  let ?r = "\<lparr>resp_status = 500, resp_json = Inl (ErrorObject ''Unexpected token'')\<rparr>"
  have h: "\<not> ok ?r" by (simp add: ok_def)
  show ?thesis
    using h generateContent_http_error [of ?r 0 7 "initial_state\<lparr>topic := ''hi'', content := ''old''\<rparr>", OF h]
    by (simp add: show_nat_500 initial_state_def)
qed

text \<open>
  C5, as stated, fails for the empty message: a 2xx body with a status other than
  "success" and the message "" leaves the error text "Unknown error occurred", the
  fallback of \<^verbatim>\<open>data.message || 'Unknown error occurred'\<close>.
\<close>

theorem empty_message_counterexample:
  "ok \<lparr>resp_status = 200, resp_json = Inr \<lparr>body_status = ''error'', body_content = [], body_message = Some [], body_data = []\<rparr>\<rparr>
   \<and> body_status \<lparr>body_status = ''error'', body_content = [], body_message = Some [], body_data = []\<rparr> \<noteq> ''success''
   \<and> error (fst (generateContent 0 7
        (Resolved \<lparr>resp_status = 200, resp_json = Inr \<lparr>body_status = ''error'', body_content = [], body_message = Some [], body_data = []\<rparr>\<rparr>)
        initial_state)) = ''Unknown error occurred''
   \<and> error (fst (generateContent 0 7
        (Resolved \<lparr>resp_status = 200, resp_json = Inr \<lparr>body_status = ''error'', body_content = [], body_message = Some [], body_data = []\<rparr>\<rparr>)
        initial_state)) \<noteq> []"
  by (simp add: generate_defs ok_def initial_state_def)

text \<open>
  C5, amended. When the POST settles with a 2xx response whose body has a status other
  than "success" and a non-empty message \<open>m\<close>, the error text becomes exactly \<open>m\<close>
  and the content cell keeps the value it had.
\<close>

theorem generateContent_service_error:
  assumes "ok r" and "resp_json r = Inr data" and "body_status data \<noteq> ''success''"
    and "body_message data = Some m" and "m \<noteq> []"
  shows "error (fst (generateContent st now (Resolved r) s)) = m
   \<and> content (fst (generateContent st now (Resolved r) s)) = content s
   \<and> error (fst (generateContent_resume st now (Resolved r) s')) = m
   \<and> content (fst (generateContent_resume st now (Resolved r) s')) = content s'"
  using assms by (simp add: generate_defs)

theorem generateContent_service_error_witness:
  "ok \<lparr>resp_status = 200, resp_json = Inr \<lparr>body_status = ''error'', body_content = [], body_message = Some ''boom'', body_data = []\<rparr>\<rparr>
   \<and> error (fst (generateContent 0 7
        (Resolved \<lparr>resp_status = 200, resp_json = Inr \<lparr>body_status = ''error'', body_content = [], body_message = Some ''boom'', body_data = []\<rparr>\<rparr>)
        (initial_state\<lparr>topic := ''hi'', content := ''old''\<rparr>))) = ''boom''
   \<and> content (fst (generateContent 0 7
        (Resolved \<lparr>resp_status = 200, resp_json = Inr \<lparr>body_status = ''error'', body_content = [], body_message = Some ''boom'', body_data = []\<rparr>\<rparr>)
        (initial_state\<lparr>topic := ''hi'', content := ''old''\<rparr>))) = ''old''"
proof -
  let ?d = "\<lparr>body_status = ''error'', body_content = [], body_message = Some ''boom'', body_data = []\<rparr>"
  let ?r = "\<lparr>resp_status = 200, resp_json = Inr ?d\<rparr>"
  have h: "ok ?r" by (simp add: ok_def)
  show ?thesis
    using h generateContent_service_error [of ?r ?d "''boom''" 0 7 "initial_state\<lparr>topic := ''hi'', content := ''old''\<rparr>", OF h]
    by (simp add: initial_state_def)
qed

text \<open>
  C1, as stated, fails for a topic that consists of a single space: the guards test
  the topic for emptiness only, so both triggers issue the POST with the body " " and
  set the loading flag.
\<close>

theorem whitespace_topic_counterexample:
  "whitespace_only (topic (initial_state\<lparr>topic := '' ''\<rparr>))
   \<and> topic (initial_state\<lparr>topic := '' ''\<rparr>) \<noteq> []
   \<and> snd (onClick_generate 0 (initial_state\<lparr>topic := '' ''\<rparr>)) = [Fetch (PostGenerate '' '')]
   \<and> snd (onKeyPress ''Enter'' 0 (initial_state\<lparr>topic := '' ''\<rparr>)) = [Fetch (PostGenerate '' '')]
   \<and> loading (fst (onClick_generate 0 (initial_state\<lparr>topic := '' ''\<rparr>)))
   \<and> \<not> loading (initial_state\<lparr>topic := '' ''\<rparr>)"
  by (simp add: trigger_defs whitespace_only_def is_ws_def initial_state_def)

text \<open>
  C1, amended. When the topic is the empty string, neither trigger of generateContent
  (the Enter key in the topic input, the Generate button) does anything: the state cells
  are unchanged, no network call is issued and no request becomes pending.
\<close>

theorem empty_topic_noop:
  assumes "topic s = []" and "topic (ui sys) = []"
  shows "onKeyPress key t s = (s, []) \<and> onClick_generate t s = (s, [])
   \<and> step (KeyPress key t) sys = sys \<and> step (ClickGenerate t) sys = sys"
  using assms by (simp add: trigger_defs perform_def)

theorem empty_topic_noop_witness:
  "topic initial_state = [] \<and> topic (ui mounted) = []
   \<and> onKeyPress ''Enter'' 5 initial_state = (initial_state, [])
   \<and> onClick_generate 5 initial_state = (initial_state, [])
   \<and> step (KeyPress ''Enter'' 5) mounted = mounted
   \<and> step (ClickGenerate 5) mounted = mounted"
proof -
  have h1: "topic initial_state = []" by (simp add: initial_state_def)
  have h2: "topic (ui mounted) = []"
    by (simp add: mounted_def perform_def fetchSavedContents_begin_def initial_state_def)
  show ?thesis
    using h1 h2 empty_topic_noop [OF h1 h2, of "''Enter''" 5] by simp
qed

text \<open>
  C2. While the loading flag is true, a key press and a click on the Generate button
  change nothing and issue no network call; and in every state the component reaches
  from mounting, through any sequence of events, at most one POST is pending.
\<close>

theorem generate_while_loading_noop:
  "(loading s \<longrightarrow> onKeyPress key t s = (s, []) \<and> onClick_generate t s = (s, []))
   \<and> (loading (ui sys) \<longrightarrow> step (KeyPress key t) sys = sys \<and> step (ClickGenerate t) sys = sys)
   \<and> length (pending_generate (run evs mounted)) \<le> 1"
proof -
  have "single_flight (run evs mounted)"
    by (rule run_single_flight [OF mounted_single_flight])
  then have "length (pending_generate (run evs mounted)) \<le> 1"
    by (simp add: single_flight_def split: if_splits)
  then show ?thesis
    by (simp add: trigger_defs perform_def)
qed

theorem generate_while_loading_noop_witness:
  "loading (ui (run [ChangeTopic ''x'', ClickGenerate 0, ClickGenerate 1, KeyPress ''Enter'' 2] mounted))
   \<and> onKeyPress ''Enter'' 3
        (ui (run [ChangeTopic ''x'', ClickGenerate 0, ClickGenerate 1, KeyPress ''Enter'' 2] mounted)) =
       (ui (run [ChangeTopic ''x'', ClickGenerate 0, ClickGenerate 1, KeyPress ''Enter'' 2] mounted), [])
   \<and> onClick_generate 3
        (ui (run [ChangeTopic ''x'', ClickGenerate 0, ClickGenerate 1, KeyPress ''Enter'' 2] mounted)) =
       (ui (run [ChangeTopic ''x'', ClickGenerate 0, ClickGenerate 1, KeyPress ''Enter'' 2] mounted), [])
   \<and> step (KeyPress ''Enter'' 3)
        (run [ChangeTopic ''x'', ClickGenerate 0, ClickGenerate 1, KeyPress ''Enter'' 2] mounted) =
       run [ChangeTopic ''x'', ClickGenerate 0, ClickGenerate 1, KeyPress ''Enter'' 2] mounted
   \<and> step (ClickGenerate 3)
        (run [ChangeTopic ''x'', ClickGenerate 0, ClickGenerate 1, KeyPress ''Enter'' 2] mounted) =
       run [ChangeTopic ''x'', ClickGenerate 0, ClickGenerate 1, KeyPress ''Enter'' 2] mounted
   \<and> length (pending_generate
        (run [ChangeTopic ''x'', ClickGenerate 0, ClickGenerate 1, KeyPress ''Enter'' 2] mounted)) \<le> 1
   \<and> pending_generate
        (run [ChangeTopic ''x'', ClickGenerate 0, ClickGenerate 1, KeyPress ''Enter'' 2] mounted) =
       [(0, ''x'')]"
proof -
  let ?evs = "[ChangeTopic ''x'', ClickGenerate 0, ClickGenerate 1, KeyPress ''Enter'' 2]"
  have h: "loading (ui (run ?evs mounted))"
    by (simp only: run_example) simp
  have p: "pending_generate (run ?evs mounted) = [(0, ''x'')]"
    by (simp only: run_example) simp
  from generate_while_loading_noop
    [of "ui (run ?evs mounted)" "''Enter''" 3 "run ?evs mounted" ?evs] h p
  show ?thesis by blast
qed

text \<open>
  C6. fetchSavedContents does not look at \<^verbatim>\<open>response.ok\<close>: a refresh that is
  answered with HTTP 500 and a body of status "success" with an empty list replaces a
  cache of one item by the empty list.
\<close>

theorem refresh_ignores_http_status:
  "\<not> ok \<lparr>resp_status = 500,
          resp_json = Inr \<lparr>body_status = ''success'', body_content = [], body_message = None,
                          body_data = []\<rparr>\<rparr>
   \<and> savedContents (initial_state\<lparr>savedContents :=
        [\<lparr>item_id = 1, item_topic = ''T'', item_content = ''C'', item_created_at = ''2025-01-01''\<rparr>]\<rparr>) \<noteq> []
   \<and> savedContents (fst (fetchSavedContents_resume
        (Resolved \<lparr>resp_status = 500,
          resp_json = Inr \<lparr>body_status = ''success'', body_content = [], body_message = None,
                          body_data = []\<rparr>\<rparr>)
        (initial_state\<lparr>savedContents :=
          [\<lparr>item_id = 1, item_topic = ''T'', item_content = ''C'', item_created_at = ''2025-01-01''\<rparr>]\<rparr>))) = []"
  by (simp add: ok_def fetchSavedContents_resume_def)

text \<open>
  C7, as stated, fails for the topic " a ": the POST carries " a ", which differs from
  its trimmed form "a".
\<close>

theorem untrimmed_topic_counterexample:
  "snd (onClick_generate 0 (initial_state\<lparr>topic := '' a ''\<rparr>)) = [Fetch (PostGenerate '' a '')]
   \<and> js_trim '' a '' = ''a''
   \<and> '' a '' \<noteq> js_trim '' a ''
   \<and> pending_generate (run [ChangeTopic '' a '', ClickGenerate 0] mounted) = [(0, '' a '')]"
  by (simp add: trigger_defs js_trim_def is_ws_def initial_state_def run_def mounted_def
      perform_def fetchSavedContents_begin_def)

text \<open>
  C7, amended. Every POST that a trigger issues carries the topic cell exactly as it is,
  and that topic is not empty; every POST pending in a state the component reaches from
  mounting carries a non-empty topic.
\<close>

theorem dispatched_topic_verbatim:
  "(Fetch (PostGenerate b) \<in> set (snd (onKeyPress key t s)) \<longrightarrow> b = topic s \<and> b \<noteq> [])
   \<and> (Fetch (PostGenerate b) \<in> set (snd (onClick_generate t s)) \<longrightarrow> b = topic s \<and> b \<noteq> [])
   \<and> list_all carries_topic (pending_generate (run evs mounted))"
proof -
  have "list_all carries_topic (pending_generate mounted)"
    by (simp add: mounted_def perform_def fetchSavedContents_begin_def)
  then have "list_all carries_topic (pending_generate (run evs mounted))"
    by (rule run_carries_topic)
  then show ?thesis
    by (simp add: trigger_defs)
qed

theorem dispatched_topic_verbatim_witness:
  "Fetch (PostGenerate '' a '') \<in> set (snd (onKeyPress ''Enter'' 0 (initial_state\<lparr>topic := '' a ''\<rparr>)))
   \<and> Fetch (PostGenerate '' a '') \<in> set (snd (onClick_generate 0 (initial_state\<lparr>topic := '' a ''\<rparr>)))
   \<and> '' a '' = topic (initial_state\<lparr>topic := '' a ''\<rparr>)
   \<and> list_all carries_topic (pending_generate (run [ChangeTopic '' a '', ClickGenerate 0] mounted))"
  using dispatched_topic_verbatim
    [of "'' a ''" "''Enter''" 0 "initial_state\<lparr>topic := '' a ''\<rparr>" "[ChangeTopic '' a '', ClickGenerate 0]"]
  by (simp add: trigger_defs initial_state_def)

text \<open>
  C8, as stated, fails for the topic made of the letter A, a capital sigma, a zero width
  no-break space and the letter B. The component replaces the whitespace first: the
  sigma then stands before a hyphen, at the end of a word, and becomes the final sigma.
  In the lower-cased topic the sigma stands inside a word and is the small sigma, so
  the topic lowercased with its whitespace run replaced is a different file name.
\<close>

theorem final_sigma_counterexample:
  "download_filename toLowerCase [0x41, 0x3A3, 0xFEFF, 0x42] =
     [0x61, 0x3C2, 0x2D, 0x62, 0x2E, 0x6D, 0x64]
   \<and> spec_filename toLowerCase [0x41, 0x3A3, 0xFEFF, 0x42] =
     [0x61, 0x3C3, 0x2D, 0x62, 0x2E, 0x6D, 0x64]
   \<and> download_filename toLowerCase [0x41, 0x3A3, 0xFEFF, 0x42]
     \<noteq> spec_filename toLowerCase [0x41, 0x3A3, 0xFEFF, 0x42]"
  by (simp add: sigma_download sigma_spec)

text \<open>
  C8, amended. For every topic string, and whatever the lower-case mapping of the
  platform is, the name of the downloaded file is the topic with every maximal run of
  whitespace replaced by one hyphen, then put in lower case, followed by ".md"; for
  the topic "How AI Helps" it is "how-ai-helps.md".
\<close>

theorem download_filename_spec:
  "download_filename lower t = lower (hyphenate t) @ utf16_of ''.md''
   \<and> download_filename toLowerCase (utf16_of ''How AI Helps'') = utf16_of ''how-ai-helps.md''"
proof -
  have "download_filename lower t = lower (hyphenate t) @ utf16_of ''.md''"
    by (simp add: download_filename_def replace_ws_hyphenate)
  with how_ai_helps show ?thesis by (rule conjI [rotated])
qed

end
